theory Spec2Isabelle
  imports Main
begin

section \<open>Data model of \<open>gradio/chat_interface.py\<close>\<close>

text \<open>
  A turn is the two-element list \<open>[user_message, bot_response]\<close> of the source, whose
  entries have the type \<open>str | None\<close>; a history is a Python list of turns.
\<close>

type_synonym turn = "string option \<times> string option"
type_synonym history = "turn list"

text \<open>
  Python lists are mutable objects that handlers share by reference
  (\<open>history.append\<close>, \<open>history.pop\<close>, \<open>return history, history\<close>). A list object is
  a reference into a store; \<open>next_ref\<close> is the first reference not yet allocated.
\<close>

type_synonym ref = nat

record store =
  cells :: "ref \<Rightarrow> history"
  next_ref :: ref

text \<open>Building a new list object (a list display, a slice, or \<open>xs + ys\<close>).\<close>

definition new_list :: "history \<Rightarrow> store \<Rightarrow> ref \<times> store" where
  "new_list xs s =
     (next_ref s, s\<lparr>cells := (cells s)(next_ref s := xs), next_ref := Suc (next_ref s)\<rparr>)"

text \<open>\<open>list.append\<close>: mutates the object in place.\<close>

definition list_append :: "ref \<Rightarrow> turn \<Rightarrow> store \<Rightarrow> store" where
  "list_append a t s = s\<lparr>cells := (cells s)(a := cells s a @ [t])\<rparr>"

datatype py_error = IndexError

text \<open>\<open>list.pop()\<close>: removes and returns the last element, \<open>IndexError\<close> on an empty list.\<close>

definition list_pop :: "ref \<Rightarrow> store \<Rightarrow> py_error + (turn \<times> store)" where
  "list_pop a s =
     (if cells s a = [] then Inl IndexError
      else Inr (last (cells s a), s\<lparr>cells := (cells s)(a := butlast (cells s a))\<rparr>))"

text \<open>\<open>x or ""\<close> on a value of type \<open>str | None\<close>: a falsy \<open>x\<close> (None or the empty
  string) gives the empty string.\<close>

definition or_empty :: "string option \<Rightarrow> string" where
  "or_empty x = (case x of None \<Rightarrow> '''' | Some m \<Rightarrow> (if m = '''' then '''' else m))"

text \<open>
  The components a \<open>ChatInterface\<close> wires together: the textbox value, the chatbot view
  and the \<open>chatbot_state\<close> (both hold list objects), and \<open>saved_input\<close>, a \<open>State()\<close>
  whose initial value is None.
\<close>

record session =
  textbox :: string
  chatbot :: ref
  chatbot_state :: ref
  saved_input :: "string option"

section \<open>Handlers\<close>

text \<open>
  The response function \<open>fn\<close> is caller-supplied: a single-shot one returns a string,
  a generator function yields a finite sequence of strings, given here as the list of
  the values it yields in order.
\<close>

type_synonym response_fn = "string \<Rightarrow> history \<Rightarrow> string"
type_synonym stream_response_fn = "string \<Rightarrow> history \<Rightarrow> string list"

definition clear_and_save_textbox :: "string \<Rightarrow> string \<times> string" where
  "clear_and_save_textbox message = ('''', message)"

definition display_input :: "string \<Rightarrow> ref \<Rightarrow> store \<Rightarrow> (ref \<times> ref) \<times> store" where
  "display_input message history s =
     (let s1 = list_append history (Some message, None) s
      in ((history, history), s1))"

definition submit_fn :: "response_fn \<Rightarrow> string \<Rightarrow> ref \<Rightarrow> store \<Rightarrow> (ref \<times> ref) \<times> store" where
  "submit_fn fn message history_with_input s =
     (let (history, s1) = new_list (butlast (cells s history_with_input)) s;
          response = fn message (cells s1 history);
          s2 = list_append history (Some message, Some response) s1
      in ((history, history), s2))"

definition delete_prev_fn :: "ref \<Rightarrow> store \<Rightarrow> (ref \<times> string \<times> ref) \<times> store" where
  "delete_prev_fn history s =
     (case list_pop history s of
        Inr ((message, _), s1) \<Rightarrow> ((history, or_empty message, history), s1)
      | Inl IndexError \<Rightarrow> ((history, or_empty (Some ''''), history), s))"

text \<open>The handler of the clear button, \<open>lambda: ([], [], None)\<close>.\<close>

definition clear_fn :: "store \<Rightarrow> (ref \<times> ref \<times> string option) \<times> store" where
  "clear_fn s =
     (let (a, s1) = new_list [] s;
          (b, s2) = new_list [] s1
      in ((a, b, None), s2))"

text \<open>
  A Python \<open>for x in generator:\<close> loop whose body yields one value per element: the
  values yielded, in order, and the store after the loop.
\<close>

fun for_yield :: "('a \<Rightarrow> store \<Rightarrow> 'b \<times> store) \<Rightarrow> 'a list \<Rightarrow> store \<Rightarrow> 'b list \<times> store" where
  "for_yield body [] s = ([], s)"
| "for_yield body (x # generator) s =
     (let (y, s1) = body x s;
          (ys, s2) = for_yield body generator s1
      in (y # ys, s2))"

text \<open>
  \<open>_stream_fn\<close>: \<open>next(generator)\<close> either gives the first element or raises
  \<open>StopIteration\<close> (the generator is empty), which the \<open>except\<close> clause catches; the
  \<open>for\<close> loop then runs over what is left of the generator. The result is the list
  of the pairs yielded.
\<close>

definition stream_fn ::
  "stream_response_fn \<Rightarrow> string \<Rightarrow> ref \<Rightarrow> store \<Rightarrow> (ref \<times> ref) list \<times> store" where
  "stream_fn fn message history_with_input s =
     (let (history, s1) = new_list (butlast (cells s history_with_input)) s;
          generator = fn message (cells s1 history);
          (first, generator', s3) =
            (case generator of
               first_response # rest \<Rightarrow>
                 (let (update, s2) =
                        new_list (cells s1 history @ [(Some message, Some first_response)]) s1
                  in ((update, update), rest, s2))
             | [] \<Rightarrow>
                 (let (update, s2) = new_list (cells s1 history @ [(Some message, None)]) s1
                  in ((update, update), [], s2)));
          (more, s4) =
            for_yield (\<lambda>response t.
                 let (update, t') = new_list (cells t history @ [(Some message, Some response)]) t
                 in ((update, update), t'))
              generator' s3
      in (first # more, s4))"

definition api_submit_fn ::
  "response_fn \<Rightarrow> string \<Rightarrow> ref \<Rightarrow> store \<Rightarrow> (string \<times> ref) \<times> store" where
  "api_submit_fn fn message history s =
     (let response = fn message (cells s history);
          s1 = list_append history (Some message, Some response) s
      in ((response, history), s1))"

definition api_stream_fn ::
  "stream_response_fn \<Rightarrow> string \<Rightarrow> ref \<Rightarrow> store \<Rightarrow> (string option \<times> ref) list \<times> store" where
  "api_stream_fn fn message history s =
     (let generator = fn message (cells s history);
          (first, generator', s2) =
            (case generator of
               first_response # rest \<Rightarrow>
                 (let (h1, s1) =
                        new_list (cells s history @ [(Some message, Some first_response)]) s
                  in ((Some first_response, h1), rest, s1))
             | [] \<Rightarrow>
                 (let (h1, s1) = new_list (cells s history @ [(Some message, None)]) s
                  in ((None, h1), [], s1)));
          (more, s3) =
            for_yield (\<lambda>response t.
                 let (h1, t') = new_list (cells t history @ [(Some message, Some response)]) t
                 in ((Some response, h1), t'))
              generator' s2
      in (first # more, s3))"

definition examples_fn :: "response_fn \<Rightarrow> string \<Rightarrow> store \<Rightarrow> ref \<times> store" where
  "examples_fn fn message s =
     (let (empty, s1) = new_list [] s
      in new_list [(Some message, Some (fn message (cells s1 empty)))] s1)"

definition examples_stream_fn ::
  "stream_response_fn \<Rightarrow> string \<Rightarrow> store \<Rightarrow> ref list \<times> store" where
  "examples_stream_fn fn message s =
     (let (empty, s1) = new_list [] s
      in for_yield (\<lambda>response t. new_list [(Some message, Some response)] t)
           (fn message (cells s1 empty)) s1)"

section \<open>Choice of the code path\<close>

text \<open>
  \<open>self.is_generator = inspect.isgeneratorfunction(self.fn)\<close> is computed once in
  \<open>__init__\<close>; \<open>_setup_events\<close>, \<open>_setup_api\<close> and the examples wiring each pick the
  streaming handler when it holds. A handler that is not a generator produces one
  output; a generator produces one output per yield.
\<close>

datatype chat_fn = Function response_fn | GeneratorFunction stream_response_fn

definition is_generator :: "chat_fn \<Rightarrow> bool" where
  "is_generator f = (case f of GeneratorFunction _ \<Rightarrow> True | Function _ \<Rightarrow> False)"

definition events_submit_fn ::
  "chat_fn \<Rightarrow> string \<Rightarrow> ref \<Rightarrow> store \<Rightarrow> (ref \<times> ref) list \<times> store" where
  "events_submit_fn f message history s =
     (case f of
        GeneratorFunction g \<Rightarrow> stream_fn g message history s
      | Function g \<Rightarrow> (let (out, s') = submit_fn g message history s in ([out], s')))"

definition api_fn ::
  "chat_fn \<Rightarrow> string \<Rightarrow> ref \<Rightarrow> store \<Rightarrow> (string option \<times> ref) list \<times> store" where
  "api_fn f message history s =
     (case f of
        GeneratorFunction g \<Rightarrow> api_stream_fn g message history s
      | Function g \<Rightarrow>
          (let ((response, h), s') = api_submit_fn g message history s
           in ([(Some response, h)], s')))"

definition init_examples_fn :: "chat_fn \<Rightarrow> string \<Rightarrow> store \<Rightarrow> ref list \<times> store" where
  "init_examples_fn f message s =
     (case f of
        GeneratorFunction g \<Rightarrow> examples_stream_fn g message s
      | Function g \<Rightarrow> (let (out, s') = examples_fn g message s in ([out], s')))"

section \<open>Event chains of \<open>_setup_events\<close>\<close>

text \<open>
  Each step reads its \<open>inputs\<close> components and writes its \<open>outputs\<close> components; a
  \<open>.then\<close> step runs after the step before it. The chain bound to \<open>textbox.submit\<close>
  and the one bound to \<open>submit_btn.click\<close> are the same three steps. Every output of
  the last step is written to \<open>[chatbot, chatbot_state]\<close>, one after the other.
\<close>

definition write_chatbot :: "(ref \<times> ref) list \<Rightarrow> session \<Rightarrow> session" where
  "write_chatbot outs ui = fold (\<lambda>(c, st) u. u\<lparr>chatbot := c, chatbot_state := st\<rparr>) outs ui"

definition submit_event :: "chat_fn \<Rightarrow> session \<Rightarrow> store \<Rightarrow> session \<times> store" where
  "submit_event f ui s =
     (let (tb, saved) = clear_and_save_textbox (textbox ui);
          ui1 = ui\<lparr>textbox := tb, saved_input := Some saved\<rparr>;
          ((c2, st2), s2) = display_input saved (chatbot_state ui1) s;
          ui2 = ui1\<lparr>chatbot := c2, chatbot_state := st2\<rparr>;
          (outs, s3) = events_submit_fn f saved (chatbot_state ui2) s2
      in (write_chatbot outs ui2, s3))"

definition retry_event :: "chat_fn \<Rightarrow> session \<Rightarrow> store \<Rightarrow> session \<times> store" where
  "retry_event f ui s =
     (let ((c1, saved, st1), s1) = delete_prev_fn (chatbot_state ui) s;
          ui1 = ui\<lparr>chatbot := c1, saved_input := Some saved, chatbot_state := st1\<rparr>;
          ((c2, st2), s2) = display_input saved (chatbot_state ui1) s1;
          ui2 = ui1\<lparr>chatbot := c2, chatbot_state := st2\<rparr>;
          (outs, s3) = events_submit_fn f saved (chatbot_state ui2) s2
      in (write_chatbot outs ui2, s3))"

text \<open>Undo: \<open>_delete_prev_fn\<close>, then \<open>lambda x: x\<close> from \<open>saved_input\<close> to the textbox.\<close>

definition undo_event :: "session \<Rightarrow> store \<Rightarrow> session \<times> store" where
  "undo_event ui s =
     (let ((c1, saved, st1), s1) = delete_prev_fn (chatbot_state ui) s;
          ui1 = ui\<lparr>chatbot := c1, saved_input := Some saved, chatbot_state := st1\<rparr>
      in (ui1\<lparr>textbox := saved\<rparr>, s1))"

text \<open>Clear: one step, outputs \<open>[chatbot, chatbot_state, saved_input]\<close>, no inputs.\<close>

definition clear_event :: "session \<Rightarrow> store \<Rightarrow> session \<times> store" where
  "clear_event ui s =
     (let ((c, st, saved), s1) = clear_fn s
      in (ui\<lparr>chatbot := c, chatbot_state := st, saved_input := saved\<rparr>, s1))"

text \<open>
  What an observer reads from the outputs of a handler: the content of the list
  objects it was handed.
\<close>

definition view_updates :: "store \<Rightarrow> (ref \<times> ref) list \<Rightarrow> (history \<times> history) list" where
  "view_updates s outs = map (\<lambda>(c, st). (cells s c, cells s st)) outs"

definition api_updates ::
  "store \<Rightarrow> (string option \<times> ref) list \<Rightarrow> (string option \<times> history) list" where
  "api_updates s outs = map (\<lambda>(r, h). (r, cells s h)) outs"

section \<open>Stop button wiring of \<open>_setup_stop_events\<close>\<close>

text \<open>
  \<open>_setup_stop_events(event_trigger, event_to_cancel)\<close> registers event bindings. A
  binding has the event it listens to, a handler (None, or a lambda returning one
  \<open>Button.update(visible=...)\<close> per output), its outputs, and whether it was given
  \<open>cancels=event_to_cancel\<close>. The events are: \<open>event_trigger\<close> itself, the completion
  of \<open>event_to_cancel\<close> (bindings made with \<open>event_to_cancel.then\<close>), and the click
  of the stop button. The arguments say whether \<open>self.stop_btn\<close> and \<open>self.submit_btn\<close>
  are buttons (rather than None) and give \<open>self.is_generator\<close>.
\<close>

datatype button = SubmitBtn | StopBtn

datatype trigger = EventTrigger | EventToCancelThen | StopBtnClick

record dependency =
  trigger :: trigger
  handler :: "bool list option"
  outputs :: "button list"
  cancels :: bool

definition setup_stop_events :: "bool \<Rightarrow> bool \<Rightarrow> bool \<Rightarrow> dependency list" where
  "setup_stop_events stop_btn generator submit_btn =
     (if stop_btn \<and> generator then
        (if submit_btn then
           [\<lparr>trigger = EventTrigger, handler = Some [False, True],
             outputs = [SubmitBtn, StopBtn], cancels = False\<rparr>,
            \<lparr>trigger = EventToCancelThen, handler = Some [True, False],
             outputs = [SubmitBtn, StopBtn], cancels = False\<rparr>]
         else
           [\<lparr>trigger = EventTrigger, handler = Some [True],
             outputs = [StopBtn], cancels = False\<rparr>,
            \<lparr>trigger = EventToCancelThen, handler = Some [False],
             outputs = [StopBtn], cancels = False\<rparr>])
        @ [\<lparr>trigger = StopBtnClick, handler = None, outputs = [], cancels = True\<rparr>]
      else [])"

subsection \<open>Running a binding\<close>

text \<open>
  The event dispatcher (\<open>gradio.events\<close>, \<open>gradio.blocks\<close> and the front end) is not
  part of \<open>chat_interface.py\<close>. Only its update of the outputs of a binding is
  needed to read the table above; what it does with the bindings sequenced after a
  chain when that chain is cancelled is not fixed here.
\<close>

type_synonym controls = "button \<Rightarrow> bool"

text \<open>Modelled from the spec: the host's update primitive, missing from the source.
  Running a binding writes the values its handler returns to its outputs, in order; a
  binding without a handler writes nothing.\<close>

definition run_dependency :: "dependency \<Rightarrow> controls \<Rightarrow> controls" where
  "run_dependency d vis =
     (case handler d of
        None \<Rightarrow> vis
      | Some updates \<Rightarrow> fold (\<lambda>(b, v) f. f(b := v)) (zip (outputs d) updates) vis)"

text \<open>Modelled from the spec: the host's event binding, missing from the source. An
  event runs the bindings registered for it, in the order of registration.\<close>

definition fire :: "trigger \<Rightarrow> dependency list \<Rightarrow> controls \<Rightarrow> controls" where
  "fire t deps vis = fold run_dependency (filter (\<lambda>d. trigger d = t) deps) vis"

section \<open>Properties\<close>

lemma submit_fn_result:
  "submit_fn fn m a s =
     ((next_ref s, next_ref s),
      s\<lparr>cells := (cells s)(next_ref s :=
            butlast (cells s a) @ [(Some m, Some (fn m (butlast (cells s a))))]),
        next_ref := Suc (next_ref s)\<rparr>)"
  by (simp add: submit_fn_def new_list_def list_append_def Let_def)

lemma display_input_result:
  "display_input m a s = ((a, a), s\<lparr>cells := (cells s)(a := cells s a @ [(Some m, None)])\<rparr>)"
  by (simp add: display_input_def list_append_def)

lemma for_yield_alloc:
  assumes body: "\<And>x t. cells t h = H \<Longrightarrow> h < next_ref t \<Longrightarrow>
      body x t = (k x (next_ref t),
                  t\<lparr>cells := (cells t)(next_ref t := v x), next_ref := Suc (next_ref t)\<rparr>)"
  shows "h < next_ref s \<Longrightarrow> cells s h = H \<Longrightarrow>
     for_yield body xs s =
       (map (\<lambda>i. k (xs ! i) (next_ref s + i)) [0..<length xs],
        s\<lparr>cells := (\<lambda>a. if next_ref s \<le> a \<and> a < next_ref s + length xs
                          then v (xs ! (a - next_ref s)) else cells s a),
          next_ref := next_ref s + length xs\<rparr>)"
proof (induction xs arbitrary: s)
  case Nil
  have "(\<lambda>a. if next_ref s \<le> a \<and> a < next_ref s + length ([]::'a list)
              then v (([]::'a list) ! (a - next_ref s)) else cells s a) = cells s"
    by (rule ext) auto
  then show ?case by simp
next
  case (Cons x xs)
  let ?s1 = "s\<lparr>cells := (cells s)(next_ref s := v x), next_ref := Suc (next_ref s)\<rparr>"
  have b: "body x s = (k x (next_ref s), ?s1)"
    using body Cons.prems by simp
  have ih: "for_yield body xs ?s1 =
       (map (\<lambda>i. k (xs ! i) (next_ref ?s1 + i)) [0..<length xs],
        ?s1\<lparr>cells := (\<lambda>a. if next_ref ?s1 \<le> a \<and> a < next_ref ?s1 + length xs
                          then v (xs ! (a - next_ref ?s1)) else cells ?s1 a),
          next_ref := next_ref ?s1 + length xs\<rparr>)"
    using Cons.prems by (intro Cons.IH) auto
  have c: "(\<lambda>a. if Suc (next_ref s) \<le> a \<and> a < Suc (next_ref s) + length xs
                 then v (xs ! (a - Suc (next_ref s))) else ((cells s)(next_ref s := v x)) a)
         = (\<lambda>a. if next_ref s \<le> a \<and> a < next_ref s + length (x # xs)
                 then v ((x # xs) ! (a - next_ref s)) else cells s a)"
    by (rule ext) (auto simp: nth_Cons' Suc_diff_le)
  show ?case
    using c by (simp add: b ih map_upt_Suc del: upt_Suc cong: if_cong)
qed

lemma map_nth_shift:
  "map (\<lambda>i. f (xs ! i)) [0..<length xs] = map f xs"
  by (rule nth_equalityI) simp_all

text \<open>The pairs \<open>_stream_fn\<close> yields and what they hold, with \<open>H\<close> the history without
  its last turn and \<open>n\<close> the first free reference.\<close>

lemma stream_fn_result:
  fixes fn m a s
  defines "n \<equiv> next_ref s"
    and "H \<equiv> butlast (cells s a)"
  defines "rs \<equiv> fn m H"
  shows "fst (stream_fn fn m a s) = map (\<lambda>i. (Suc n + i, Suc n + i)) [0..<max 1 (length rs)]"
    and "b < n \<Longrightarrow> cells (snd (stream_fn fn m a s)) b = cells s b"
    and "cells (snd (stream_fn fn m a s)) n = H"
    and "rs = [] \<Longrightarrow> cells (snd (stream_fn fn m a s)) (Suc n) = H @ [(Some m, None)]"
    and "i < length rs \<Longrightarrow>
           cells (snd (stream_fn fn m a s)) (Suc n + i) = H @ [(Some m, Some (rs ! i))]"
proof -
  let ?body = "\<lambda>response t. ((next_ref t, next_ref t),
      t\<lparr>cells := (cells t)(next_ref t := cells t n @ [(Some m, Some response)]),
        next_ref := Suc (next_ref t)\<rparr>)"
  have body: "\<And>x t. cells t n = H \<Longrightarrow> n < next_ref t \<Longrightarrow>
      ?body x t = ((\<lambda>x u. (u, u)) x (next_ref t),
         t\<lparr>cells := (cells t)(next_ref t := (\<lambda>x. H @ [(Some m, Some x)]) x),
           next_ref := Suc (next_ref t)\<rparr>)"
    by simp
  note loop = for_yield_alloc [of n H ?body "\<lambda>x u. (u, u)" "\<lambda>x. H @ [(Some m, Some x)]", OF body]
  show "fst (stream_fn fn m a s) = map (\<lambda>i. (Suc n + i, Suc n + i)) [0..<max 1 (length rs)]"
    unfolding stream_fn_def
    by (cases rs)
       (simp_all add: new_list_def Let_def n_def [symmetric] H_def [symmetric] rs_def [symmetric]
          loop map_upt_Suc del: upt_Suc)
  show "b < n \<Longrightarrow> cells (snd (stream_fn fn m a s)) b = cells s b"
    unfolding stream_fn_def
    by (cases rs)
       (simp_all add: new_list_def Let_def n_def [symmetric] H_def [symmetric] rs_def [symmetric]
          loop)
  show "cells (snd (stream_fn fn m a s)) n = H"
    unfolding stream_fn_def
    by (cases rs)
       (simp_all add: new_list_def Let_def n_def [symmetric] H_def [symmetric] rs_def [symmetric]
          loop)
  show "rs = [] \<Longrightarrow> cells (snd (stream_fn fn m a s)) (Suc n) = H @ [(Some m, None)]"
    unfolding stream_fn_def
    by (simp add: new_list_def Let_def n_def [symmetric] H_def [symmetric] rs_def [symmetric]
          loop)
  show "i < length rs \<Longrightarrow>
           cells (snd (stream_fn fn m a s)) (Suc n + i) = H @ [(Some m, Some (rs ! i))]"
    unfolding stream_fn_def
    by (cases rs)
       (auto simp add: new_list_def Let_def n_def [symmetric] H_def [symmetric] rs_def [symmetric]
          loop nth_Cons')
qed

lemma api_stream_fn_result:
  fixes fn m a s
  defines "n \<equiv> next_ref s"
    and "H \<equiv> cells s a"
  defines "rs \<equiv> fn m H"
  assumes a: "a < n"
  shows "fst (api_stream_fn fn m a s) =
           (if rs = [] then [(None, n)] else map (\<lambda>i. (Some (rs ! i), n + i)) [0..<length rs])"
    and "b < n \<Longrightarrow> cells (snd (api_stream_fn fn m a s)) b = cells s b"
    and "rs = [] \<Longrightarrow> cells (snd (api_stream_fn fn m a s)) n = H @ [(Some m, None)]"
    and "i < length rs \<Longrightarrow>
           cells (snd (api_stream_fn fn m a s)) (n + i) = H @ [(Some m, Some (rs ! i))]"
proof -
  let ?body = "\<lambda>response t. ((Some response, next_ref t),
      t\<lparr>cells := (cells t)(next_ref t := cells t a @ [(Some m, Some response)]),
        next_ref := Suc (next_ref t)\<rparr>)"
  have body: "\<And>x t. cells t a = H \<Longrightarrow> a < next_ref t \<Longrightarrow>
      ?body x t = ((\<lambda>x u. (Some x, u)) x (next_ref t),
         t\<lparr>cells := (cells t)(next_ref t := (\<lambda>x. H @ [(Some m, Some x)]) x),
           next_ref := Suc (next_ref t)\<rparr>)"
    by simp
  note loop = for_yield_alloc [of a H ?body "\<lambda>x u. (Some x, u)" "\<lambda>x. H @ [(Some m, Some x)]",
      OF body]
  note defs = api_stream_fn_def new_list_def Let_def n_def [symmetric] H_def [symmetric]
    rs_def [symmetric]
  have a': "a \<noteq> n" "a < Suc n"
    using a by simp_all
  show "fst (api_stream_fn fn m a s) =
           (if rs = [] then [(None, n)] else map (\<lambda>i. (Some (rs ! i), n + i)) [0..<length rs])"
    using a a' by (cases rs) (simp_all add: defs loop map_upt_Suc del: upt_Suc)
  show "b < n \<Longrightarrow> cells (snd (api_stream_fn fn m a s)) b = cells s b"
    using a a' by (cases rs) (simp_all add: defs loop)
  show "rs = [] \<Longrightarrow> cells (snd (api_stream_fn fn m a s)) n = H @ [(Some m, None)]"
    using a a' by (simp add: defs loop)
  show "i < length rs \<Longrightarrow>
           cells (snd (api_stream_fn fn m a s)) (n + i) = H @ [(Some m, Some (rs ! i))]"
    using a a' by (cases rs) (auto simp add: defs loop nth_Cons')
qed

lemma stream_fn_view:
  "view_updates (snd (stream_fn fn m a s)) (fst (stream_fn fn m a s)) =
     (let H = butlast (cells s a); rs = fn m H
      in if rs = [] then [(H @ [(Some m, None)], H @ [(Some m, None)])]
         else map (\<lambda>r. (H @ [(Some m, Some r)], H @ [(Some m, Some r)])) rs)"
proof (cases "fn m (butlast (cells s a)) = []")
  case True
  then show ?thesis
    by (simp add: view_updates_def stream_fn_result(1) stream_fn_result(4) Let_def)
next
  case False
  let ?H = "butlast (cells s a)"
  let ?rs = "fn m ?H"
  let ?g = "\<lambda>r. (?H @ [(Some m, Some r)], ?H @ [(Some m, Some r)])"
  have len: "max 1 (length ?rs) = length ?rs"
    using False by (cases ?rs) simp_all
  have "view_updates (snd (stream_fn fn m a s)) (fst (stream_fn fn m a s))
      = map (\<lambda>i. ?g (?rs ! i)) [0..<length ?rs]"
    using len
    by (simp add: view_updates_def stream_fn_result(1) stream_fn_result(5) [simplified] o_def)
  then show ?thesis
    using False by (simp add: map_nth_shift [of ?g ?rs] Let_def)
qed

lemma api_stream_fn_view:
  assumes "a < next_ref s"
  shows "api_updates (snd (api_stream_fn fn m a s)) (fst (api_stream_fn fn m a s)) =
     (let H = cells s a; rs = fn m H
      in if rs = [] then [(None, H @ [(Some m, None)])]
         else map (\<lambda>r. (Some r, H @ [(Some m, Some r)])) rs)"
proof (cases "fn m (cells s a) = []")
  case True
  then show ?thesis
    using assms
    by (simp add: api_updates_def api_stream_fn_result(1) api_stream_fn_result(3) Let_def)
next
  case False
  let ?H = "cells s a"
  let ?rs = "fn m ?H"
  let ?g = "\<lambda>r. (Some r, ?H @ [(Some m, Some r)])"
  have "api_updates (snd (api_stream_fn fn m a s)) (fst (api_stream_fn fn m a s))
      = map (\<lambda>i. ?g (?rs ! i)) [0..<length ?rs]"
    using assms False
    by (simp add: api_updates_def api_stream_fn_result(1) api_stream_fn_result(4) o_def)
  then show ?thesis
    using False by (simp add: map_nth_shift [of ?g ?rs] Let_def)
qed

lemma write_chatbot_frame:
  "textbox (write_chatbot outs ui) = textbox ui
   \<and> saved_input (write_chatbot outs ui) = saved_input ui"
  by (induction outs arbitrary: ui) (simp_all add: write_chatbot_def split: prod.splits)

lemma write_chatbot_last:
  "outs \<noteq> [] \<Longrightarrow>
     chatbot (write_chatbot outs ui) = fst (last outs)
     \<and> chatbot_state (write_chatbot outs ui) = snd (last outs)"
  by (cases outs rule: rev_cases) (simp_all add: write_chatbot_def split: prod.splits)

lemma delete_prev_fn_result:
  "cells s a = H @ [(Some m, r)] \<Longrightarrow>
     delete_prev_fn a s = ((a, m, a), s\<lparr>cells := (cells s)(a := H)\<rparr>)"
  by (simp add: delete_prev_fn_def list_pop_def or_empty_def)

lemma examples_stream_fn_result:
  "examples_stream_fn fn m s =
     (map (\<lambda>i. Suc (next_ref s) + i) [0..<length (fn m [])],
      s\<lparr>cells := (\<lambda>a. if Suc (next_ref s) \<le> a \<and> a < Suc (next_ref s) + length (fn m [])
                        then [(Some m, Some (fn m [] ! (a - Suc (next_ref s))))]
                        else ((cells s)(next_ref s := [])) a),
        next_ref := Suc (next_ref s) + length (fn m [])\<rparr>)"
proof -
  let ?s1 = "s\<lparr>cells := (cells s)(next_ref s := []), next_ref := Suc (next_ref s)\<rparr>"
  let ?body = "\<lambda>response t. new_list [(Some m, Some response)] t"
  have body: "\<And>x t. cells t (next_ref s) = [] \<Longrightarrow> next_ref s < next_ref t \<Longrightarrow>
      ?body x t = ((\<lambda>x u. u) x (next_ref t),
         t\<lparr>cells := (cells t)(next_ref t := (\<lambda>x. [(Some m, Some x)]) x),
           next_ref := Suc (next_ref t)\<rparr>)"
    by (simp add: new_list_def)
  have "for_yield ?body (fn m []) ?s1 =
       (map (\<lambda>i. (\<lambda>x u. u) (fn m [] ! i) (next_ref ?s1 + i)) [0..<length (fn m [])],
        ?s1\<lparr>cells := (\<lambda>a. if next_ref ?s1 \<le> a \<and> a < next_ref ?s1 + length (fn m [])
                          then (\<lambda>x. [(Some m, Some x)]) (fn m [] ! (a - next_ref ?s1))
                          else cells ?s1 a),
          next_ref := next_ref ?s1 + length (fn m [])\<rparr>)"
    by (rule for_yield_alloc [of "next_ref s" "[]", OF body]) simp_all
  then show ?thesis
    by (simp add: examples_stream_fn_def new_list_def cong: if_cong)
qed

text \<open>
  C1. For every single-shot \<open>fn\<close>, message \<open>m\<close> (the textbox content) and history \<open>H\<close>
  (the content of \<open>chatbot_state\<close>), the submit chain clears the textbox, stages \<open>m\<close>,
  and leaves both the view and the state on a history \<open>H + [(m, fn(m, H))]\<close>: \<open>fn\<close> is
  called on \<open>H\<close>, without the pending turn that \<open>_display_input\<close> appended. The same
  holds of \<open>_submit_fn\<close> alone on any list: it drops the last turn before it calls \<open>fn\<close>.
\<close>

theorem submit_event_history:
  "(let H = cells s (chatbot_state ui); m = textbox ui;
        (ui', s') = submit_event (Function fn) ui s
    in textbox ui' = '''' \<and> saved_input ui' = Some m
       \<and> cells s' (chatbot_state ui') = H @ [(Some m, Some (fn m H))]
       \<and> cells s' (chatbot ui') = H @ [(Some m, Some (fn m H))])
   \<and> (let ((c, st), s') = submit_fn fn m a s; H0 = butlast (cells s a)
      in cells s' st = H0 @ [(Some m, Some (fn m H0))] \<and> c = st)"
  by (simp add: submit_event_def clear_and_save_textbox_def display_input_result
      events_submit_fn_def write_chatbot_def submit_fn_result Let_def)

theorem submit_event_echo:
  "(let ui = \<lparr>textbox = ''hi'', chatbot = 0, chatbot_state = 0, saved_input = None\<rparr>;
        s = \<lparr>cells = (\<lambda>_. []), next_ref = 1\<rparr>;
        (ui', s') = submit_event (Function (\<lambda>m h. m)) ui s
    in textbox ui' = '''' \<and> cells s' (chatbot_state ui') = [(Some ''hi'', Some ''hi'')])"
  using submit_event_history
    [of "\<lparr>cells = (\<lambda>_. []), next_ref = 1\<rparr>"
        "\<lparr>textbox = ''hi'', chatbot = 0, chatbot_state = 0, saved_input = None\<rparr>"
        "\<lambda>m h. m" "''hi''" 0]
  by (simp add: Let_def split: prod.splits)

text \<open>
  C2. When the generator \<open>fn(m, H)\<close> yields the non-empty sequence \<open>r1, ..., rn\<close>,
  \<open>_stream_fn\<close> on \<open>m\<close> and a history \<open>H\<close> followed by its pending turn yields exactly
  \<open>n\<close> pairs, the i-th holding \<open>H + [(m, ri)]\<close> twice: the last turn is replaced, not
  stacked, so every history yielded has \<open>|H| + 1\<close> turns.
\<close>

theorem stream_fn_updates:
  "fn m H = r # rs \<Longrightarrow> cells s a = H @ [(Some m, None)] \<Longrightarrow>
     (let (outs, s') = stream_fn fn m a s
      in view_updates s' outs
           = map (\<lambda>x. (H @ [(Some m, Some x)], H @ [(Some m, Some x)])) (r # rs)
         \<and> length outs = length (r # rs)
         \<and> list_all (\<lambda>(c, st). length c = Suc (length H) \<and> length st = Suc (length H))
             (view_updates s' outs))"
proof -
  assume fn: "fn m H = r # rs" and a: "cells s a = H @ [(Some m, None)]"
  have v: "view_updates (snd (stream_fn fn m a s)) (fst (stream_fn fn m a s))
      = map (\<lambda>x. (H @ [(Some m, Some x)], H @ [(Some m, Some x)])) (r # rs)"
    using fn a by (simp add: stream_fn_view Let_def)
  have l: "length (fst (stream_fn fn m a s)) = length (r # rs)"
    using fn a by (simp add: stream_fn_result(1))
  show ?thesis
    using l by (simp add: split_beta v list_all_iff del: list.map)
qed

theorem stream_fn_updates_witness:
  "(\<lambda>m h. [''a'', ''ab'']) ''q'' [] = ''a'' # [''ab'']
   \<and> cells \<lparr>cells = (\<lambda>_. [])(0 := [(Some ''q'', None)]), next_ref = 1\<rparr> 0
       = [] @ [(Some ''q'', None)]
   \<and> (let (outs, s') = stream_fn (\<lambda>m h. [''a'', ''ab'']) ''q'' 0
                         \<lparr>cells = (\<lambda>_. [])(0 := [(Some ''q'', None)]), next_ref = 1\<rparr>
      in view_updates s' outs
           = [([(Some ''q'', Some ''a'')], [(Some ''q'', Some ''a'')]),
              ([(Some ''q'', Some ''ab'')], [(Some ''q'', Some ''ab'')])])"
  using stream_fn_updates
    [of "\<lambda>m h. [''a'', ''ab'']" "''q''" "[]" "''a''" "[''ab'']"
        "\<lparr>cells = (\<lambda>_. [])(0 := [(Some ''q'', None)]), next_ref = 1\<rparr>" 0]
  by (simp add: split_beta)

text \<open>
  C3. When the generator \<open>fn(m, H)\<close> yields nothing, \<open>_stream_fn\<close> yields exactly one
  pair, holding \<open>H + [(m, None)]\<close> twice, and returns: the \<open>StopIteration\<close> of
  \<open>next\<close> is caught. \<open>_api_stream_fn\<close> likewise yields exactly the one pair
  \<open>(None, H + [(m, None)])\<close>.
\<close>

theorem stream_fn_empty_generator:
  "fn m H = [] \<Longrightarrow> cells s a = H @ [(Some m, None)] \<Longrightarrow> b < next_ref s \<Longrightarrow> cells s b = H \<Longrightarrow>
     (let (outs, s') = stream_fn fn m a s
      in view_updates s' outs = [(H @ [(Some m, None)], H @ [(Some m, None)])])
     \<and> (let (outs, s') = api_stream_fn fn m b s
        in api_updates s' outs = [(None, H @ [(Some m, None)])])"
  by (simp add: split_beta stream_fn_view api_stream_fn_view Let_def)

theorem stream_fn_empty_generator_witness:
  "(\<lambda>m h. []) ''q'' [(Some ''p'', Some ''x'')] = ([]::string list)
   \<and> (let s = \<lparr>cells = (\<lambda>_. [])(0 := [(Some ''p'', Some ''x''), (Some ''q'', None)],
                                  1 := [(Some ''p'', Some ''x'')]), next_ref = 2\<rparr>
      in cells s 0 = [(Some ''p'', Some ''x'')] @ [(Some ''q'', None)] \<and> 1 < next_ref s
         \<and> cells s 1 = [(Some ''p'', Some ''x'')]
         \<and> (let (outs, s') = stream_fn (\<lambda>m h. []) ''q'' 0 s
            in view_updates s' outs
                 = [([(Some ''p'', Some ''x''), (Some ''q'', None)],
                     [(Some ''p'', Some ''x''), (Some ''q'', None)])])
         \<and> (let (outs, s') = api_stream_fn (\<lambda>m h. []) ''q'' 1 s
            in api_updates s' outs = [(None, [(Some ''p'', Some ''x''), (Some ''q'', None)])]))"
  using stream_fn_empty_generator
    [of "\<lambda>m h. []" "''q''" "[(Some ''p'', Some ''x'')]"
        "\<lparr>cells = (\<lambda>_. [])(0 := [(Some ''p'', Some ''x''), (Some ''q'', None)],
                                  1 := [(Some ''p'', Some ''x'')]), next_ref = 2\<rparr>" 0 1]
  by (simp add: split_beta Let_def)

text \<open>
  C7. \<open>_delete_prev_fn\<close> on an empty history raises nothing (the \<open>IndexError\<close> of
  \<open>pop\<close> is caught): the list is returned still empty, the store is unchanged and the
  staged message is the empty string; undo then leaves the history empty and writes
  the empty string to the textbox.
\<close>

theorem delete_prev_fn_empty:
  "cells s a = [] \<Longrightarrow>
     delete_prev_fn a s = ((a, '''', a), s)
     \<and> (chatbot_state ui = a \<longrightarrow>
          (let (ui', s') = undo_event ui s
           in s' = s \<and> cells s' (chatbot_state ui') = [] \<and> cells s' (chatbot ui') = []
              \<and> textbox ui' = '''' \<and> saved_input ui' = Some ''''))"
  by (simp add: delete_prev_fn_def list_pop_def or_empty_def undo_event_def)

theorem delete_prev_fn_empty_witness:
  "cells \<lparr>cells = (\<lambda>_. []), next_ref = 1\<rparr> 0 = []
   \<and> delete_prev_fn 0 \<lparr>cells = (\<lambda>_. []), next_ref = 1\<rparr>
       = ((0, '''', 0), \<lparr>cells = (\<lambda>_. []), next_ref = 1\<rparr>)
   \<and> textbox (fst (undo_event
        \<lparr>textbox = ''draft'', chatbot = 0, chatbot_state = 0, saved_input = None\<rparr>
        \<lparr>cells = (\<lambda>_. []), next_ref = 1\<rparr>)) = ''''"
  using delete_prev_fn_empty
    [of "\<lparr>cells = (\<lambda>_. []), next_ref = 1\<rparr>" 0
        "\<lparr>textbox = ''draft'', chatbot = 0, chatbot_state = 0, saved_input = None\<rparr>"]
  by (simp add: Let_def split: prod.splits)

text \<open>
  C8. From any session and any store, the clear action sets the view and the history
  state to (new) empty lists and the staged input to None, in one step whose handler
  takes no input and calls no response function; the textbox is not among its outputs.
\<close>

theorem clear_event_resets:
  "(let (ui', s') = clear_event ui s
    in cells s' (chatbot ui') = [] \<and> cells s' (chatbot_state ui') = []
       \<and> saved_input ui' = None \<and> textbox ui' = textbox ui)"
  by (simp add: clear_event_def clear_fn_def new_list_def Let_def)

text \<open>
  C6. On a history \<open>H + [(m, r)]\<close>, the retry chain pops the last turn and stages
  \<open>m\<close> (step 1), appends the pending turn \<open>(m, None)\<close> (step 2), and calls \<open>fn(m, H)\<close>
  (step 3): the history ends as \<open>H + [(m, r')]\<close>, with \<open>r'\<close> the new response, the
  turns of \<open>H\<close> unchanged. For a generator function \<open>r'\<close> is the last value yielded
  (None when nothing is yielded).
\<close>

theorem retry_event_replaces_last:
  "cells s (chatbot_state ui) = H @ [(Some m, r)] \<Longrightarrow>
     (let ((c1, saved, st1), s1) = delete_prev_fn (chatbot_state ui) s;
          ((c2, st2), s2) = display_input saved st1 s1
      in saved = m \<and> cells s1 st1 = H \<and> cells s2 st2 = H @ [(Some m, None)])
     \<and> (let (ui', s') = retry_event (Function fn) ui s
        in cells s' (chatbot_state ui') = H @ [(Some m, Some (fn m H))]
           \<and> cells s' (chatbot ui') = H @ [(Some m, Some (fn m H))]
           \<and> saved_input ui' = Some m)
     \<and> (let (ui', s') = retry_event (GeneratorFunction g) ui s;
            r' = (if g m H = [] then None else Some (last (g m H)))
        in cells s' (chatbot_state ui') = H @ [(Some m, r')]
           \<and> cells s' (chatbot ui') = H @ [(Some m, r')]
           \<and> saved_input ui' = Some m)"
proof -
  assume h: "cells s (chatbot_state ui) = H @ [(Some m, r)]"
  let ?a = "chatbot_state ui"
  let ?s2 = "s\<lparr>cells := (cells s)(?a := H @ [(Some m, None)])\<rparr>"
  let ?st = "stream_fn g m ?a ?s2"
  have steps: "(let ((c1, saved, st1), s1) = delete_prev_fn (chatbot_state ui) s;
          ((c2, st2), s2) = display_input saved st1 s1
      in saved = m \<and> cells s1 st1 = H \<and> cells s2 st2 = H @ [(Some m, None)])"
    by (simp add: delete_prev_fn_result [OF h] display_input_result)
  have single: "(let (ui', s') = retry_event (Function fn) ui s
        in cells s' (chatbot_state ui') = H @ [(Some m, Some (fn m H))]
           \<and> cells s' (chatbot ui') = H @ [(Some m, Some (fn m H))]
           \<and> saved_input ui' = Some m)"
    by (simp add: retry_event_def delete_prev_fn_result [OF h] display_input_result
        events_submit_fn_def submit_fn_result write_chatbot_def)
  have "\<exists>u. retry_event (GeneratorFunction g) ui s = (write_chatbot (fst ?st) u, snd ?st)
      \<and> saved_input u = Some m"
    unfolding retry_event_def delete_prev_fn_result [OF h] display_input_result
      events_submit_fn_def split_beta
    by (intro exI [of _ "ui\<lparr>saved_input := Some m, chatbot := chatbot_state ui\<rparr>"])
       (simp add: Let_def)
  then obtain u where
    chain: "retry_event (GeneratorFunction g) ui s = (write_chatbot (fst ?st) u, snd ?st)"
    and u: "saved_input u = Some m"
    by blast
  have ne: "fst ?st \<noteq> []"
    by (auto simp add: stream_fn_result(1) max_def)
  have view: "view_updates (snd ?st) (fst ?st) =
     (if g m H = [] then [(H @ [(Some m, None)], H @ [(Some m, None)])]
      else map (\<lambda>r. (H @ [(Some m, Some r)], H @ [(Some m, Some r)])) (g m H))"
    by (simp add: stream_fn_view Let_def)
  have lastv: "last (view_updates (snd ?st) (fst ?st)) =
     (cells (snd ?st) (fst (last (fst ?st))), cells (snd ?st) (snd (last (fst ?st))))"
    using ne by (simp add: view_updates_def last_map split_beta)
  have lastr: "last (view_updates (snd ?st) (fst ?st)) =
     (H @ [(Some m, if g m H = [] then None else Some (last (g m H)))],
      H @ [(Some m, if g m H = [] then None else Some (last (g m H)))])"
    by (simp add: view last_map)
  have c1: "cells (snd ?st) (fst (last (fst ?st))) =
      H @ [(Some m, if g m H = [] then None else Some (last (g m H)))]"
    using lastv unfolding lastr by (rule Pair_inject) (rule sym)
  have c2: "cells (snd ?st) (snd (last (fst ?st))) =
      H @ [(Some m, if g m H = [] then None else Some (last (g m H)))]"
    using lastv unfolding lastr by (rule Pair_inject) (rule sym)
  have stream: "(let (ui', s') = retry_event (GeneratorFunction g) ui s;
            r' = (if g m H = [] then None else Some (last (g m H)))
        in cells s' (chatbot_state ui') = H @ [(Some m, r')]
           \<and> cells s' (chatbot ui') = H @ [(Some m, r')]
           \<and> saved_input ui' = Some m)"
    using c1 c2
    by (simp add: chain u write_chatbot_last [OF ne] write_chatbot_frame Let_def)
  show ?thesis
    using steps single stream by blast
qed

theorem retry_event_replaces_last_witness:
  "(let s = \<lparr>cells = (\<lambda>_. [])(0 := [(Some ''p'', Some ''x''), (Some ''q'', Some ''old'')]),
              next_ref = 1\<rparr>;
        ui = \<lparr>textbox = '''', chatbot = 0, chatbot_state = 0, saved_input = None\<rparr>
    in cells s (chatbot_state ui) = [(Some ''p'', Some ''x'')] @ [(Some ''q'', Some ''old'')]
       \<and> (let (ui', s') = retry_event (Function (\<lambda>m h. m @ ''!'')) ui s
          in cells s' (chatbot_state ui') = [(Some ''p'', Some ''x''), (Some ''q'', Some ''q!'')])
       \<and> (let (ui', s') = retry_event (GeneratorFunction (\<lambda>m h. [''n'', ''ne'', ''new''])) ui s
          in cells s' (chatbot_state ui') = [(Some ''p'', Some ''x''), (Some ''q'', Some ''new'')]))"
  using retry_event_replaces_last
    [of "\<lparr>cells = (\<lambda>_. [])(0 := [(Some ''p'', Some ''x''), (Some ''q'', Some ''old'')]),
              next_ref = 1\<rparr>"
        "\<lparr>textbox = '''', chatbot = 0, chatbot_state = 0, saved_input = None\<rparr>"
        "[(Some ''p'', Some ''x'')]" "''q''" "Some ''old''"
        "\<lambda>m h. m @ ''!''" "\<lambda>m h. [''n'', ''ne'', ''new'']"]
  by (simp add: Let_def split_beta)

text \<open>
  C5. \<open>_setup_api\<close> branches on \<open>is_generator\<close> as \<open>_setup_events\<close> does. For a
  single-shot \<open>fn\<close> the API call returns \<open>(fn(m, H), H + [(m, fn(m, H))])\<close>; for a
  generator function its i-th value is \<open>(ri, H + [(m, ri)])\<close> for the i-th element
  \<open>ri\<close> of \<open>fn(m, H)\<close>, and \<open>(None, H + [(m, None)])\<close> alone when there is none. In
  both branches the histories the API produces on \<open>(m, H)\<close> are, one by one, those the
  UI handler produces on \<open>m\<close> and \<open>H\<close> with its pending turn.
\<close>

theorem api_fn_branching:
  "a < next_ref s \<Longrightarrow> cells s a = H \<Longrightarrow> cells s b = H @ [(Some m, None)] \<Longrightarrow>
     (let (outs, s') = api_fn (Function f) m a s
      in api_updates s' outs = [(Some (f m H), H @ [(Some m, Some (f m H))])])
     \<and> (let (outs, s') = api_fn (GeneratorFunction g) m a s
        in api_updates s' outs =
             (if g m H = [] then [(None, H @ [(Some m, None)])]
              else map (\<lambda>r. (Some r, H @ [(Some m, Some r)])) (g m H)))
     \<and> (let (outs, s') = api_fn F m a s;
            (outs_ui, s'') = events_submit_fn F m b s
        in map snd (api_updates s' outs) = map snd (view_updates s'' outs_ui)
           \<and> (is_generator F \<or> length outs = 1))"
proof -
  assume a: "a < next_ref s" and H: "cells s a = H" and b: "cells s b = H @ [(Some m, None)]"
  have single: "\<And>f. (let (outs, s') = api_fn (Function f) m a s
      in api_updates s' outs = [(Some (f m H), H @ [(Some m, Some (f m H))])])"
    using H by (simp add: api_fn_def api_submit_fn_def list_append_def api_updates_def Let_def)
  have stream: "\<And>g. (let (outs, s') = api_fn (GeneratorFunction g) m a s
        in api_updates s' outs =
             (if g m H = [] then [(None, H @ [(Some m, None)])]
              else map (\<lambda>r. (Some r, H @ [(Some m, Some r)])) (g m H)))"
    using H by (simp add: api_fn_def split_beta api_stream_fn_view [OF a] Let_def)
  have same: "(let (outs, s') = api_fn F m a s;
            (outs_ui, s'') = events_submit_fn F m b s
        in map snd (api_updates s' outs) = map snd (view_updates s'' outs_ui)
           \<and> (is_generator F \<or> length outs = 1))"
  proof (cases F)
    case (Function f)
    show ?thesis
      using single [of f] b
      by (simp add: Function events_submit_fn_def submit_fn_result view_updates_def
          is_generator_def split_beta api_fn_def)
  next
    case (GeneratorFunction g)
    show ?thesis
      using stream [of g] b
      by (simp add: GeneratorFunction events_submit_fn_def is_generator_def split_beta
          stream_fn_view Let_def o_def)
  qed
  show ?thesis
    using single [of f] stream [of g] same by blast
qed

theorem api_fn_branching_witness:
  "(let s = \<lparr>cells = (\<lambda>_. [])(1 := [(Some ''q'', None)]), next_ref = 2\<rparr>
    in 0 < next_ref s \<and> cells s 0 = [] \<and> cells s 1 = [] @ [(Some ''q'', None)]
       \<and> (let (outs, s') = api_fn (Function (\<lambda>m h. m)) ''q'' 0 s
          in api_updates s' outs = [(Some ''q'', [(Some ''q'', Some ''q'')])])
       \<and> (let (outs, s') = api_fn (GeneratorFunction (\<lambda>m h. [''a'', ''ab''])) ''q'' 0 s
          in api_updates s' outs =
               [(Some ''a'', [(Some ''q'', Some ''a'')]),
                (Some ''ab'', [(Some ''q'', Some ''ab'')])]))"
  using api_fn_branching
    [of 0 "\<lparr>cells = (\<lambda>_. [])(1 := [(Some ''q'', None)]), next_ref = 2\<rparr>" "[]" 1 "''q''"
        "\<lambda>m h. m" "\<lambda>m h. [''a'', ''ab'']" "GeneratorFunction (\<lambda>m h. [''a'', ''ab''])"]
  by (simp add: Let_def split_beta)

text \<open>
  C9. \<open>_api_submit_fn\<close> appends \<open>(m, response)\<close> to the list it was passed and returns
  that same list, building no new one. \<open>_api_stream_fn\<close> and \<open>_stream_fn\<close> leave the
  list they were passed (and every other list that exists) as it was: every history
  they yield is a list built during the call; \<open>_stream_fn\<close> first builds the copy
  \<open>history_with_input[:-1]\<close>.
\<close>

theorem api_history_aliasing:
  "a < next_ref s \<Longrightarrow>
     (let ((r, h), s') = api_submit_fn f m a s
      in h = a \<and> r = f m (cells s a) \<and> cells s' a = cells s a @ [(Some m, Some r)]
         \<and> next_ref s' = next_ref s)
     \<and> (let (outs, s') = api_stream_fn g m a s
        in cells s' a = cells s a \<and> list_all (\<lambda>(r, h). next_ref s \<le> h \<and> h \<noteq> a) outs)
     \<and> (let (outs, s') = stream_fn g m a s
        in cells s' a = cells s a \<and> cells s' (next_ref s) = butlast (cells s a)
           \<and> list_all (\<lambda>(c, st). next_ref s < c \<and> c \<noteq> a \<and> st = c) outs)"
proof -
  assume a: "a < next_ref s"
  have 1: "(let ((r, h), s') = api_submit_fn f m a s
      in h = a \<and> r = f m (cells s a) \<and> cells s' a = cells s a @ [(Some m, Some r)]
         \<and> next_ref s' = next_ref s)"
    by (simp add: api_submit_fn_def list_append_def Let_def)
  have 2: "(let (outs, s') = api_stream_fn g m a s
        in cells s' a = cells s a \<and> list_all (\<lambda>(r, h). next_ref s \<le> h \<and> h \<noteq> a) outs)"
    using a
    by (auto simp add: split_beta api_stream_fn_result(2) [OF a a] api_stream_fn_result(1) [OF a]
        list_all_iff)
  have 3: "(let (outs, s') = stream_fn g m a s
        in cells s' a = cells s a \<and> cells s' (next_ref s) = butlast (cells s a)
           \<and> list_all (\<lambda>(c, st). next_ref s < c \<and> c \<noteq> a \<and> st = c) outs)"
    using a
    by (auto simp add: split_beta stream_fn_result(2) [OF a] stream_fn_result(3)
        stream_fn_result(1) list_all_iff)
  show ?thesis
    using 1 2 3 by blast
qed

theorem api_history_aliasing_witness:
  "(let s = \<lparr>cells = (\<lambda>_. [])(0 := [(Some ''p'', Some ''x'')]), next_ref = 1\<rparr>
    in 0 < next_ref s
       \<and> (let ((r, h), s') = api_submit_fn (\<lambda>m h. m) ''q'' 0 s
          in h = 0 \<and> cells s' 0 = [(Some ''p'', Some ''x''), (Some ''q'', Some ''q'')])
       \<and> (let (outs, s') = api_stream_fn (\<lambda>m h. [''a'', ''ab'']) ''q'' 0 s
          in cells s' 0 = [(Some ''p'', Some ''x'')])
       \<and> (let (outs, s') = stream_fn (\<lambda>m h. [''a'', ''ab'']) ''q'' 0 s
          in cells s' 0 = [(Some ''p'', Some ''x'')]))"
  using api_history_aliasing
    [of 0 "\<lparr>cells = (\<lambda>_. [])(0 := [(Some ''p'', Some ''x'')]), next_ref = 1\<rparr>"
        "\<lambda>m h. m" "''q''" "\<lambda>m h. [''a'', ''ab'']"]
  by (simp add: Let_def split_beta)

text \<open>
  C10. The two examples handlers take the message only and call \<open>fn(message, [])\<close>,
  whatever lists exist. \<open>_examples_fn\<close> returns \<open>[[message, fn(message, [])]]\<close>;
  \<open>_examples_stream_fn\<close> yields one list \<open>[[message, response]]\<close> per element of
  \<open>fn(message, [])\<close> and has no clause for an empty generator: when \<open>fn(message, [])\<close>
  yields nothing it yields nothing, where \<open>_stream_fn\<close> yields one pair.
\<close>

theorem examples_fn_empty_history:
  "(let (out, s') = examples_fn f m s in cells s' out = [(Some m, Some (f m []))])
   \<and> (let (outs, s') = examples_stream_fn g m s
      in map (cells s') outs = map (\<lambda>r. [(Some m, Some r)]) (g m []))
   \<and> init_examples_fn (GeneratorFunction g) m s = examples_stream_fn g m s
   \<and> fst (init_examples_fn (Function f) m s) = [fst (examples_fn f m s)]
   \<and> (g m [] = [] \<and> butlast (cells s a) = [] \<longrightarrow>
        fst (examples_stream_fn g m s) = [] \<and> length (fst (stream_fn g m a s)) = 1)"
proof -
  let ?rs = "g m []"
  let ?k = "\<lambda>r. [(Some m, Some r)]"
  have 1: "(let (out, s') = examples_fn f m s in cells s' out = [(Some m, Some (f m []))])"
    by (simp add: examples_fn_def new_list_def)
  have "map (cells (snd (examples_stream_fn g m s))) (fst (examples_stream_fn g m s))
      = map (\<lambda>i. ?k (?rs ! i)) [0..<length ?rs]"
    by (simp add: examples_stream_fn_result o_def)
  then have 2: "(let (outs, s') = examples_stream_fn g m s
      in map (cells s') outs = map ?k ?rs)"
    by (simp add: split_beta map_nth_shift [of ?k ?rs])
  have 3: "init_examples_fn (GeneratorFunction g) m s = examples_stream_fn g m s"
    "fst (init_examples_fn (Function f) m s) = [fst (examples_fn f m s)]"
    by (simp_all add: init_examples_fn_def split_beta)
  have 4: "g m [] = [] \<and> butlast (cells s a) = [] \<longrightarrow>
        fst (examples_stream_fn g m s) = [] \<and> length (fst (stream_fn g m a s)) = 1"
    by (simp add: examples_stream_fn_result stream_fn_result(1))
  show ?thesis
    using 1 2 3 4 by blast
qed

theorem examples_fn_empty_history_witness:
  "(let s = \<lparr>cells = (\<lambda>_. [])(0 := [(Some ''q'', None)]), next_ref = 1\<rparr>
    in (\<lambda>m h. []) ''q'' [] = ([]::string list) \<and> butlast (cells s 0) = []
       \<and> fst (examples_stream_fn (\<lambda>m h. []) ''q'' s) = []
       \<and> length (fst (stream_fn (\<lambda>m h. []) ''q'' 0 s)) = 1
       \<and> (let (out, s') = examples_fn (\<lambda>m h. m) ''q'' s
          in cells s' out = [(Some ''q'', Some ''q'')]))"
  using examples_fn_empty_history
    [of "\<lambda>m h. m" "''q''"
        "\<lparr>cells = (\<lambda>_. [])(0 := [(Some ''q'', None)]), next_ref = 1\<rparr>" "\<lambda>m h. []" 0]
  by (simp add: Let_def split_beta)

text \<open>
  What \<open>_setup_stop_events\<close> binds, with a stop button and a generator function: the
  triggering event shows stop (and hides submit, when there is one); the binding made
  with \<open>event_to_cancel.then\<close> hides stop (and shows submit); the binding of the stop
  click has no handler and no outputs, so running it changes no control, and it is the
  only binding given \<open>cancels\<close>. Otherwise nothing is bound.
\<close>

lemma setup_stop_events_bindings:
  "(let deps = setup_stop_events True True submit_btn;
        responding = fire EventTrigger deps vis;
        after_then = fire EventToCancelThen deps responding
    in responding StopBtn \<and> \<not> after_then StopBtn
       \<and> (if submit_btn then \<not> responding SubmitBtn \<and> after_then SubmitBtn
           else responding SubmitBtn = vis SubmitBtn \<and> after_then SubmitBtn = vis SubmitBtn)
       \<and> fire StopBtnClick deps responding = responding
       \<and> filter cancels deps
            = [\<lparr>trigger = StopBtnClick, handler = None, outputs = [], cancels = True\<rparr>])
   \<and> setup_stop_events False generator submit_btn = []
   \<and> setup_stop_events stop_btn False submit_btn = []"
  by (cases submit_btn)
     (simp_all add: setup_stop_events_def fire_def run_dependency_def Let_def)

end
